theory Spec2Isabelle
  imports Complex_Main "HOL-Library.AList"
begin

section \<open>Values and strings\<close>

text \<open>
  The program is \<^verbatim>\<open>src/temp2fa.py\<close>. Its account store is a Python dictionary
  \<^verbatim>\<open>self.secrets: Dict[str, Any]\<close> that is written to and read from a JSON file, so
  the values of the model are JSON values. A dictionary is an association list with
  distinct keys in insertion order, which is the order Python keeps.

  Python strings are modelled as \<^typ>\<open>string\<close>. The model agrees with Python on ASCII
  text: \<^verbatim>\<open>str.upper\<close> is modelled on the letters a to z only.
\<close>

datatype json =
    JNull
  | JBool bool
  | JNum real
  | JStr string
  | JArr "json list"
  | JObj "(string \<times> json) list"

type_synonym store = "(string \<times> json) list"

text \<open>\<^verbatim>\<open>key in d\<close> for a dictionary \<open>d\<close>.\<close>

definition has_key :: "string \<Rightarrow> (string \<times> 'v) list \<Rightarrow> bool" where
  "has_key k d = (k \<in> set (map fst d))"

text \<open>\<^verbatim>\<open>d.update(other)\<close>: every item of \<open>other\<close> is assigned in turn.\<close>

definition dict_update :: "(string \<times> 'v) list \<Rightarrow> (string \<times> 'v) list \<Rightarrow> (string \<times> 'v) list" where
  "dict_update d other = fold (\<lambda>(k, v) acc. AList.update k v acc) other d"

text \<open>\<^verbatim>\<open>str.upper\<close> on one character.\<close>

definition upper_char :: "char \<Rightarrow> char" where
  "upper_char c =
     (if 97 \<le> (of_char c :: nat) \<and> (of_char c :: nat) \<le> 122
      then char_of ((of_char c :: nat) - 32) else c)"

definition upper :: "string \<Rightarrow> string" where
  "upper s = map upper_char s"

text \<open>
  \<^verbatim>\<open>str.isspace\<close> on one character: tab, line feed, vertical tab, form feed,
  carriage return, the four separators 28 to 31, the space, and 133 and 160.
\<close>

definition is_space :: "char \<Rightarrow> bool" where
  "is_space c =
     (let n = (of_char c :: nat)
      in (9 \<le> n \<and> n \<le> 13) \<or> (28 \<le> n \<and> n \<le> 32) \<or> n = 133 \<or> n = 160)"

text \<open>\<^verbatim>\<open>s.lstrip(c)\<close> for one character, and \<^verbatim>\<open>s.strip()\<close>.\<close>

definition lstrip_char :: "char \<Rightarrow> string \<Rightarrow> string" where
  "lstrip_char c s = dropWhile (\<lambda>x. x = c) s"

definition strip :: "string \<Rightarrow> string" where
  "strip s = rev (dropWhile is_space (rev (dropWhile is_space s)))"

text \<open>\<^verbatim>\<open>s.replace(' ', '').replace('-', '')\<close>.\<close>

definition remove_separators :: "string \<Rightarrow> string" where
  "remove_separators s = filter (\<lambda>c. c \<noteq> CHR ''-'') (filter (\<lambda>c. c \<noteq> CHR '' '') s)"

text \<open>
  \<^verbatim>\<open>clean_secret = secret.replace(' ', '').replace('-', '').upper()\<close>
  (\<^verbatim>\<open>add_account_manual\<close>, line 278).
\<close>

definition clean_secret :: "string \<Rightarrow> string" where
  "clean_secret secret = upper (remove_separators secret)"

text \<open>\<^verbatim>\<open>str(n)\<close> for a non-negative integer: its decimal digits.\<close>

definition digit_char :: "nat \<Rightarrow> char" where
  "digit_char d = char_of (48 + d)"

fun str_nat :: "nat \<Rightarrow> string" where
  "str_nat n = (if n < 10 then [digit_char n] else str_nat (n div 10) @ [digit_char (n mod 10)])"

section \<open>Unique account keys\<close>

text \<open>
  The loop of \<^verbatim>\<open>add_account_from_qr\<close> (lines 255 to 260), of
  \<^verbatim>\<open>add_account_manual\<close> (lines 283 to 287) and of \<^verbatim>\<open>rename_account\<close>
  (lines 941 to 945):
  \<^verbatim>\<open>
    name = base_name
    counter = 1
    while name in self.secrets:
        name = f"{base_name}_{counter}"
        counter += 1
  \<close>
  \<open>taken\<close> lists the keys for which the loop condition holds: all keys of the store
  when adding, all keys but the account's own when renaming
  (\<^verbatim>\<open>new_key in self.manager.secrets and new_key != account_key\<close>).
\<close>

definition suffixed :: "string \<Rightarrow> nat \<Rightarrow> string" where
  "suffixed base_name counter = base_name @ ''_'' @ str_nat counter"

text \<open>
  The counters from \<open>counter\<close> on whose candidate key is taken. Their number is the
  measure by which the loop terminates; the loop itself does not compute it.
\<close>

definition pending :: "string \<Rightarrow> string list \<Rightarrow> nat \<Rightarrow> nat set" where
  "pending base_name taken counter = {n. counter \<le> n \<and> suffixed base_name n \<in> set taken}"

function unique_key :: "string \<Rightarrow> string list \<Rightarrow> string \<Rightarrow> nat \<Rightarrow> string" where
  "unique_key base_name taken name counter =
     (if name \<in> set taken
      then unique_key base_name taken (suffixed base_name counter) (Suc counter)
      else name)"
  by pat_completeness auto

text \<open>The loop started as the add operations start it: at the base name, counter 1.\<close>

definition fresh_key :: "store \<Rightarrow> string \<Rightarrow> string" where
  "fresh_key secrets base_name = unique_key base_name (map fst secrets) base_name 1"

section \<open>Adding accounts\<close>

text \<open>
  \<^verbatim>\<open>pyotp.TOTP(s).now()\<close> belongs to an external library. Whether it returns
  without raising is the parameter \<open>totp_ok\<close> of every operation that validates a
  secret; \<^verbatim>\<open>time.time()\<close> is the parameter \<open>now\<close>.
\<close>

text \<open>The dictionary \<^verbatim>\<open>extract_secret_from_image\<close> returns (lines 237 to 241).\<close>

record qr_data =
  qr_secret :: string
  qr_account :: string
  qr_issuer :: string

text \<open>The record stored under a key (lines 262 to 267 and 289 to 294).\<close>

definition account_record :: "string \<Rightarrow> string \<Rightarrow> string \<Rightarrow> real \<Rightarrow> json" where
  "account_record secret account issuer added =
     JObj [(''secret'', JStr secret), (''account'', JStr account),
           (''issuer'', JStr issuer), (''added'', JNum added)]"

text \<open>
  \<^verbatim>\<open>TOTPManager.add_account_from_qr\<close> (lines 247 to 272): the returned flag and the
  store afterwards. A secret that pyotp refuses raises, the handler returns False and the
  store is as before.
\<close>

definition add_account_from_qr ::
  "(string \<Rightarrow> bool) \<Rightarrow> real \<Rightarrow> qr_data \<Rightarrow> store \<Rightarrow> bool \<times> store" where
  "add_account_from_qr totp_ok now qr secrets =
     (if \<not> totp_ok (qr_secret qr) then (False, secrets)
      else
        let base_name = qr_issuer qr @ ''_'' @ qr_account qr;
            name = fresh_key secrets base_name
        in (True, AList.update name
                    (account_record (qr_secret qr) (qr_account qr) (qr_issuer qr) now) secrets))"

text \<open>
  \<^verbatim>\<open>TOTPManager.add_account_manual\<close> (lines 274 to 299). The candidate keys
  \<^verbatim>\<open>f"{issuer}_{name}_{counter}"\<close> are those of \<open>unique_key\<close> for the base name
  \<^verbatim>\<open>f"{issuer}_{name}"\<close>.
\<close>

definition add_account_manual ::
  "(string \<Rightarrow> bool) \<Rightarrow> real \<Rightarrow> string \<Rightarrow> string \<Rightarrow> string \<Rightarrow> store \<Rightarrow> bool \<times> store" where
  "add_account_manual totp_ok now name secret issuer secrets =
     (let clean = clean_secret secret
      in if \<not> totp_ok clean then (False, secrets)
         else
           let key = fresh_key secrets (issuer @ ''_'' @ name)
           in (True, AList.update key (account_record clean name issuer now) secrets))"

text \<open>
  \<^verbatim>\<open>ManualEntryDialog.accept\<close> (lines 1346 to 1369). Each error is a message box
  after which the dialog has no result:
  \<open>NoServiceName\<close> "Please enter a service name" (rename dialog only),
  \<open>NoAccountName\<close> "Please enter an account name",
  \<open>NoSecretKey\<close> "Please enter the secret key",
  \<open>SecretTooShort\<close> "Secret key seems too short. Make sure you copied the full key."
\<close>

datatype dialog_error = NoServiceName | NoAccountName | NoSecretKey | SecretTooShort

definition MIN_SECRET_LENGTH :: nat where
  "MIN_SECRET_LENGTH = 16"

record manual_entry =
  entry_issuer :: string
  entry_account :: string
  entry_secret :: string

definition manual_accept :: "string \<Rightarrow> string \<Rightarrow> string \<Rightarrow> dialog_error + manual_entry" where
  "manual_accept service_var account_var secret_var =
     (let service = (if strip service_var = [] then ''Manual'' else strip service_var);
          account_name = strip account_var;
          secret = strip secret_var
      in if account_name = [] then Inl NoAccountName
         else if secret = [] then Inl NoSecretKey
         else if length (remove_separators secret) < MIN_SECRET_LENGTH then Inl SecretTooShort
         else Inr \<lparr>entry_issuer = service, entry_account = account_name, entry_secret = secret\<rparr>)"

text \<open>
  \<^verbatim>\<open>TOTPManagerGUI.show_manual_entry\<close> (lines 715 to 736) for one press of the
  dialog's button: what the user is told and the store afterwards. \<open>save_ok\<close> is
  whether \<^verbatim>\<open>save_secrets\<close> could write the file.
\<close>

datatype manual_outcome = Rejected dialog_error | InvalidSecretData | SaveFailed | Added

definition show_manual_entry ::
  "(string \<Rightarrow> bool) \<Rightarrow> real \<Rightarrow> bool \<Rightarrow> string \<Rightarrow> string \<Rightarrow> string \<Rightarrow> store
     \<Rightarrow> manual_outcome \<times> store" where
  "show_manual_entry totp_ok now save_ok service_var account_var secret_var secrets =
     (case manual_accept service_var account_var secret_var of
        Inl e \<Rightarrow> (Rejected e, secrets)
      | Inr d \<Rightarrow>
          (case add_account_manual totp_ok now (entry_account d) (entry_secret d) (entry_issuer d) secrets of
             (True, secrets') \<Rightarrow> (if save_ok then (Added, secrets') else (SaveFailed, secrets'))
           | (False, secrets') \<Rightarrow> (InvalidSecretData, secrets')))"

text \<open>
  A sequence of calls of the two add operations, each with its clock reading, run one
  after the other on the store.
\<close>

datatype add_request = QrAdd qr_data real | ManualAdd string string string real

fun add_one :: "(string \<Rightarrow> bool) \<Rightarrow> add_request \<Rightarrow> store \<Rightarrow> store" where
  "add_one totp_ok (QrAdd qr now) secrets = snd (add_account_from_qr totp_ok now qr secrets)"
| "add_one totp_ok (ManualAdd name secret issuer now) secrets =
     snd (add_account_manual totp_ok now name secret issuer secrets)"

definition add_all :: "(string \<Rightarrow> bool) \<Rightarrow> add_request list \<Rightarrow> store \<Rightarrow> store" where
  "add_all totp_ok requests secrets = fold (add_one totp_ok) requests secrets"

section \<open>Parsing the QR payload\<close>

text \<open>
  \<^verbatim>\<open>urllib.parse\<close> is the Python standard library. The functions below follow
  \<^verbatim>\<open>urlparse\<close> and \<^verbatim>\<open>parse_qs\<close> on a string that starts with
  \<^verbatim>\<open>otpauth://totp/\<close>: tab, line feed and carriage return are removed, the scheme is
  \<^verbatim>\<open>otpauth\<close> and the network location \<^verbatim>\<open>totp\<close>, the fragment starts at the
  first \<^verbatim>\<open>#\<close> and the query at the first \<^verbatim>\<open>?\<close> before it. Percent escapes
  are decoded byte by byte, which is Python's result for the escapes of ASCII characters.
\<close>

text \<open>\<^verbatim>\<open>s.split(c, 1)\<close>: the text before the first \<open>c\<close> and the text after it.\<close>

definition before_first :: "char \<Rightarrow> string \<Rightarrow> string" where
  "before_first c s = takeWhile (\<lambda>x. x \<noteq> c) s"

definition after_first :: "char \<Rightarrow> string \<Rightarrow> string" where
  "after_first c s = drop 1 (dropWhile (\<lambda>x. x \<noteq> c) s)"

text \<open>\<^verbatim>\<open>s.split(c)\<close>.\<close>

fun split_on :: "char \<Rightarrow> string \<Rightarrow> string list" where
  "split_on c [] = [[]]"
| "split_on c (x # xs) =
     (if x = c then [] # split_on c xs
      else (case split_on c xs of w # ws \<Rightarrow> (x # w) # ws | [] \<Rightarrow> [[x]]))"

definition unsafe_removed :: "string \<Rightarrow> string" where
  "unsafe_removed url = filter (\<lambda>c. (of_char c :: nat) \<notin> {9, 10, 13}) url"

definition url_rest :: "string \<Rightarrow> string" where
  "url_rest raw = before_first CHR ''#'' (drop (length ''otpauth://totp'') (unsafe_removed raw))"

definition urlparse_path :: "string \<Rightarrow> string" where
  "urlparse_path raw = before_first CHR ''?'' (url_rest raw)"

definition urlparse_query :: "string \<Rightarrow> string" where
  "urlparse_query raw = after_first CHR ''?'' (url_rest raw)"

definition hex_value :: "char \<Rightarrow> nat option" where
  "hex_value c =
     (let n = (of_char c :: nat)
      in if 48 \<le> n \<and> n \<le> 57 then Some (n - 48)
         else if 65 \<le> n \<and> n \<le> 70 then Some (n - 55)
         else if 97 \<le> n \<and> n \<le> 102 then Some (n - 87)
         else None)"

fun unquote :: "string \<Rightarrow> string" where
  "unquote [] = []"
| "unquote [c] = [c]"
| "unquote [c, d] = [c, d]"
| "unquote (c # d # e # rest) =
     (if c = CHR ''%'' then
        (case (hex_value d, hex_value e) of
           (Some x, Some y) \<Rightarrow> char_of (16 * x + y) # unquote rest
         | _ \<Rightarrow> c # unquote (d # e # rest))
      else c # unquote (d # e # rest))"

definition plus_to_space :: "string \<Rightarrow> string" where
  "plus_to_space s = map (\<lambda>c. if c = CHR ''+'' then CHR '' '' else c) s"

text \<open>
  One \<^verbatim>\<open>name=value\<close> field of \<^verbatim>\<open>parse_qs\<close>: a field with no \<^verbatim>\<open>=\<close> or with
  an empty value is dropped (\<^verbatim>\<open>keep_blank_values=False\<close>).
\<close>

definition parse_field :: "string \<Rightarrow> (string \<times> string) list" where
  "parse_field name_value =
     (if CHR ''='' \<notin> set name_value then []
      else if after_first CHR ''='' name_value = [] then []
      else [(unquote (plus_to_space (before_first CHR ''='' name_value)),
             unquote (plus_to_space (after_first CHR ''='' name_value)))])"

definition parse_qs :: "string \<Rightarrow> (string \<times> string) list" where
  "parse_qs qs = concat (map parse_field (split_on CHR ''&'' qs))"

text \<open>
  \<^verbatim>\<open>params.get(name, [default])[0]\<close>: the first value given for \<open>name\<close>.
\<close>

definition params_get :: "(string \<times> string) list \<Rightarrow> string \<Rightarrow> string option" where
  "params_get params name = map_of params name"

text \<open>
  \<^verbatim>\<open>TOTPManager.extract_secret_from_image\<close> (lines 214 to 245). The argument is
  what \<^verbatim>\<open>self.qr_decoder.decode_qr(image)\<close> returned: a string or None.
\<close>

definition split_label :: "string \<Rightarrow> string \<Rightarrow> string \<times> string" where
  "split_label issuer account_name =
     (if CHR '':'' \<in> set account_name then
        (if issuer = ''Unknown'' then before_first CHR '':'' account_name else issuer,
         after_first CHR '':'' account_name)
      else (issuer, account_name))"

definition extract_secret_from_image :: "string option \<Rightarrow> qr_data option" where
  "extract_secret_from_image decoded =
     (case decoded of
        None \<Rightarrow> None
      | Some raw \<Rightarrow>
          if raw = [] \<or> take (length ''otpauth://totp/'') raw \<noteq> ''otpauth://totp/'' then None
          else
            let params = parse_qs (urlparse_query raw);
                secret = params_get params ''secret'';
                issuer = (case params_get params ''issuer'' of Some v \<Rightarrow> v | None \<Rightarrow> ''Unknown'');
                account_name = lstrip_char CHR ''/'' (urlparse_path raw);
                label = split_label issuer account_name
            in (case secret of
                  None \<Rightarrow> None
                | Some s \<Rightarrow>
                    if s = [] then None
                    else Some \<lparr>qr_secret = s, qr_account = snd label, qr_issuer = fst label\<rparr>))"

section \<open>Loading the store\<close>

text \<open>
  \<^verbatim>\<open>TOTPManager.load_secrets\<close> (lines 180 to 201). The storage file is missing,
  or opening or parsing it raises, or it parses to a JSON value. The result is the returned
  flag and the value of \<^verbatim>\<open>self.secrets\<close> afterwards, given its value before; the
  handler of line 199 assigns nothing.
\<close>

datatype storage_file = Missing | Unreadable | Content json

text \<open>
  \<^verbatim>\<open>isinstance(data, dict) and 'salt' in data and 'data' in data\<close> (line 191).
\<close>

fun legacy_encrypted :: "json \<Rightarrow> bool" where
  "legacy_encrypted (JObj kvs) = (has_key ''salt'' kvs \<and> has_key ''data'' kvs)"
| "legacy_encrypted v = False"

fun load_secrets :: "json \<Rightarrow> storage_file \<Rightarrow> bool \<times> json" where
  "load_secrets secrets Missing = (True, JObj [])"
| "load_secrets secrets Unreadable = (False, secrets)"
| "load_secrets secrets (Content data) =
     (if legacy_encrypted data then (True, JObj []) else (True, data))"

text \<open>
  \<^verbatim>\<open>TOTPManager.__init__\<close> (line 176) and the start of the application
  (lines 404 and 413): a new manager loads its file once.
\<close>

definition initial_secrets :: json where
  "initial_secrets = JObj []"

definition startup_load :: "storage_file \<Rightarrow> bool \<times> json" where
  "startup_load file = load_secrets initial_secrets file"

section \<open>Time remaining\<close>

text \<open>
  \<^verbatim>\<open>TOTPManager.get_time_remaining\<close> (lines 318 to 320) for the clock reading
  \<open>now\<close>. Python's \<^verbatim>\<open>int\<close> of a float drops the fraction, and \<^verbatim>\<open>%\<close> with a
  positive divisor is \<open>mod\<close>.
\<close>

definition TOTP_PERIOD :: int where
  "TOTP_PERIOD = 30"

definition py_int :: "real \<Rightarrow> int" where
  "py_int x = (if 0 \<le> x then \<lfloor>x\<rfloor> else \<lceil>x\<rceil>)"

definition get_time_remaining :: "real \<Rightarrow> int" where
  "get_time_remaining now = TOTP_PERIOD - (py_int now mod TOTP_PERIOD)"

section \<open>Export and import\<close>

text \<open>
  \<^verbatim>\<open>TOTPManagerGUI.export_accounts\<close> (lines 764 to 793). \<open>file_path\<close> is what the
  file dialog returned (empty when it was cancelled) and \<open>write_ok\<close> whether the file
  could be written. \<^verbatim>\<open>json.dump\<close> followed by \<^verbatim>\<open>json.load\<close> gives the value
  back, so the file is modelled by the JSON value it holds.
\<close>

datatype export_outcome = NoAccounts | ExportCancelled | ExportError | Exported json

definition export_data :: "store \<Rightarrow> real \<Rightarrow> json" where
  "export_data secrets now =
     JObj [(''version'', JStr ''1.0''), (''accounts'', JObj secrets), (''exported_at'', JNum now)]"

definition export_accounts :: "store \<Rightarrow> string \<Rightarrow> bool \<Rightarrow> real \<Rightarrow> export_outcome" where
  "export_accounts secrets file_path write_ok now =
     (if secrets = [] then NoAccounts
      else if file_path = [] then ExportCancelled
      else if \<not> write_ok then ExportError
      else Exported (export_data secrets now))"

text \<open>
  \<^verbatim>\<open>TOTPManagerGUI.import_accounts\<close> (lines 795 to 835). \<open>answer\<close> is the reply
  to the conflict question: \<open>Some True\<close> for Yes (replace), \<open>Some False\<close> for No (skip),
  \<open>None\<close> for Cancel (abort); it is asked only when there is a conflict. A document that
  is not an object, or has no \<^verbatim>\<open>accounts\<close> member, or whose member is a number, a
  boolean or null raises and the handler reports the error. A member that is a string or
  an array is iterated by Python; the model does not follow that and answers
  \<open>OtherShape\<close>.
\<close>

datatype import_outcome =
  ImportCancelled | ImportError | ImportAborted | ImportSaveFailed | Imported nat | OtherShape

definition apply_import :: "store \<Rightarrow> store \<Rightarrow> bool \<Rightarrow> import_outcome \<times> store" where
  "apply_import secrets imported_accounts save_ok =
     (let secrets' = dict_update secrets imported_accounts
      in if save_ok then (Imported (length imported_accounts), secrets')
         else (ImportSaveFailed, secrets'))"

definition import_accounts ::
  "store \<Rightarrow> string \<Rightarrow> storage_file \<Rightarrow> bool option \<Rightarrow> bool \<Rightarrow> import_outcome \<times> store" where
  "import_accounts secrets file_path file answer save_ok =
     (if file_path = [] then (ImportCancelled, secrets)
      else
        (case file of
           Content (JObj import_data) \<Rightarrow>
             (case map_of import_data ''accounts'' of
                Some (JObj imported_accounts) \<Rightarrow>
                  (let conflicts = filter (\<lambda>name. has_key name secrets) (map fst imported_accounts)
                   in if conflicts \<noteq> [] then
                        (case answer of
                           None \<Rightarrow> (ImportAborted, secrets)
                         | Some False \<Rightarrow>
                             apply_import secrets
                               (filter (\<lambda>(k, v). \<not> has_key k secrets) imported_accounts) save_ok
                         | Some True \<Rightarrow> apply_import secrets imported_accounts save_ok)
                      else apply_import secrets imported_accounts save_ok)
              | Some (JStr s) \<Rightarrow> (OtherShape, secrets)
              | Some (JArr xs) \<Rightarrow> (OtherShape, secrets)
              | _ \<Rightarrow> (ImportError, secrets))
         | _ \<Rightarrow> (ImportError, secrets)))"

section \<open>Renaming an account\<close>







text \<open>
  \<^verbatim>\<open>self.tree.item(item)['values']\<close> (line 923) does not return the cells as they
  were filled: \<^verbatim>\<open>ttk\<close> passes every cell through \<^verbatim>\<open>_convert_stringval\<close>,
  which returns \<^verbatim>\<open>int(str(value))\<close> when that parses and the string otherwise.
  \<^verbatim>\<open>int\<close> of a string drops surrounding whitespace and accepts an optional sign
  followed by decimal digits, with single underscores allowed between digits.
\<close>

definition is_digit :: "char \<Rightarrow> bool" where
  "is_digit c = (48 \<le> (of_char c :: nat) \<and> (of_char c :: nat) \<le> 57)"

fun digits_ok :: "string \<Rightarrow> bool" where
  "digits_ok [] = False"
| "digits_ok [c] = is_digit c"
| "digits_ok (c # d # rest) =
     (is_digit c \<and> (if d = CHR ''_'' then digits_ok rest else digits_ok (d # rest)))"

definition unsigned_part :: "string \<Rightarrow> string" where
  "unsigned_part s =
     (case strip s of
        [] \<Rightarrow> []
      | c # rest \<Rightarrow> if c = CHR ''+'' \<or> c = CHR ''-'' then rest else c # rest)"

definition int_literal :: "string \<Rightarrow> bool" where
  "int_literal s = digits_ok (unsigned_part s)"

definition int_value :: "string \<Rightarrow> int" where
  "int_value s =
     (let magnitude = foldl (\<lambda>a c. 10 * a + int ((of_char c :: nat) - 48)) 0
                        (filter is_digit (unsigned_part s))
      in if take 1 (strip s) = ''-'' then - magnitude else magnitude)"

definition convert_stringval :: "string \<Rightarrow> json" where
  "convert_stringval v = (if int_literal v then JNum (of_int (int_value v)) else JStr v)"


section \<open>The key loop terminates\<close>

text \<open>
  Distinct counters give distinct candidate keys, so only finitely many candidates from
  \<open>counter\<close> on are taken, and each turn of the loop uses one of them up.
\<close>

lemma digit_char_inj: "a < 10 \<Longrightarrow> b < 10 \<Longrightarrow> digit_char a = digit_char b \<Longrightarrow> a = b"
proof -
  assume a: "a < 10" and b: "b < 10" and e: "digit_char a = digit_char b"
  have "(of_char (digit_char a) :: nat) = of_char (digit_char b)" using e by simp
  then have "(48 + a) mod 256 = (48 + b) mod 256"
    by (simp add: digit_char_def)
  with a b show "a = b" by simp
qed

lemma str_nat_nonempty: "str_nat n \<noteq> []"
  by (subst str_nat.simps) simp

lemma str_nat_inj: "str_nat m = str_nat n \<Longrightarrow> m = n"
proof (induction m arbitrary: n rule: str_nat.induct)
  case (1 m)
  show ?case
  proof (cases "m < 10")
    case True
    then have m1: "str_nat m = [digit_char m]" by (subst str_nat.simps) simp
    show ?thesis
    proof (cases "n < 10")
      case nt: True
      then have "str_nat n = [digit_char n]" by (subst str_nat.simps) simp
      with m1 "1.prems" have "digit_char m = digit_char n" by simp
      with True nt show ?thesis by (rule digit_char_inj)
    next
      case False
      then have "str_nat n = str_nat (n div 10) @ [digit_char (n mod 10)]"
        by (subst str_nat.simps) simp
      with m1 "1.prems" have "str_nat (n div 10) = []" by simp
      with str_nat_nonempty show ?thesis by blast
    qed
  next
    case False
    then have m2: "str_nat m = str_nat (m div 10) @ [digit_char (m mod 10)]"
      by (subst str_nat.simps) simp
    show ?thesis
    proof (cases "n < 10")
      case True
      then have "str_nat n = [digit_char n]" by (subst str_nat.simps) simp
      with m2 "1.prems" have "str_nat (m div 10) = []" by simp
      with str_nat_nonempty show ?thesis by blast
    next
      case nf: False
      then have "str_nat n = str_nat (n div 10) @ [digit_char (n mod 10)]"
        by (subst str_nat.simps) simp
      with m2 "1.prems" have e1: "str_nat (m div 10) = str_nat (n div 10)"
        and e2: "digit_char (m mod 10) = digit_char (n mod 10)" by simp_all
      from "1.IH"[OF False e1] have d: "m div 10 = n div 10" .
      have "m mod 10 = n mod 10" by (rule digit_char_inj[OF _ _ e2]) simp_all
      with d show ?thesis by (metis div_mult_mod_eq)
    qed
  qed
qed

lemma suffixed_inj: "suffixed b m = suffixed b n \<Longrightarrow> m = n"
  by (simp add: suffixed_def str_nat_inj)

lemma finite_pending: "finite (pending b t c)"
proof -
  have "pending b t c \<subseteq> suffixed b -` set t" by (auto simp: pending_def)
  moreover have "finite (suffixed b -` set t)"
    by (rule finite_vimageI) (auto simp: inj_on_def dest: suffixed_inj)
  ultimately show ?thesis by (rule finite_subset)
qed

lemma pending_step:
  "pending b t c = (if suffixed b c \<in> set t then insert c (pending b t (Suc c)) else pending b t (Suc c))"
  by (auto simp: pending_def Suc_le_eq le_less elim: le_neq_implies_less)

lemma card_pending:
  "card (pending b t c) = card (pending b t (Suc c)) + (if suffixed b c \<in> set t then 1 else 0)"
proof -
  have "c \<notin> pending b t (Suc c)" by (simp add: pending_def)
  then show ?thesis
    by (subst pending_step) (simp add: finite_pending)
qed

termination unique_key
proof (relation "measure (\<lambda>(b, t, name, c). card (pending b t c) + (if name \<in> set t then 1 else 0))")
  show "wf (measure (\<lambda>(b, t, name, c). card (pending b t c) + (if name \<in> set t then 1 else 0)))"
    by simp
next
  fix base_name :: string and taken :: "string list" and name :: string and counter :: nat
  assume "name \<in> set taken"
  then show "((base_name, taken, suffixed base_name counter, Suc counter), base_name, taken, name, counter)
     \<in> measure (\<lambda>(b, t, name, c). card (pending b t c) + (if name \<in> set t then 1 else 0))"
    by (simp add: card_pending[of base_name taken counter])
qed

lemma unique_key_free: "name \<notin> set taken \<Longrightarrow> unique_key b taken name c = name"
  by simp

lemma unique_key_fresh: "unique_key b taken name c \<notin> set taken"
  by (induction b taken name c rule: unique_key.induct) simp

section \<open>Keys of added accounts\<close>

lemmas char_eval = char_of_def bit_Suc_0_iff

lemma unique_key_least:
  "name \<in> set taken \<Longrightarrow>
   \<exists>k. c \<le> k \<and> unique_key b taken name c = suffixed b k \<and> suffixed b k \<notin> set taken
       \<and> (\<forall>j. c \<le> j \<and> j < k \<longrightarrow> suffixed b j \<in> set taken)"
proof (induction b taken name c rule: unique_key.induct)
  case (1 b taken name c)
  show ?case
  proof (cases "suffixed b c \<in> set taken")
    case True
    from "1.IH"[OF "1.prems" True] obtain k where k: "Suc c \<le> k"
      "unique_key b taken (suffixed b c) (Suc c) = suffixed b k" "suffixed b k \<notin> set taken"
      "\<forall>j. Suc c \<le> j \<and> j < k \<longrightarrow> suffixed b j \<in> set taken" by blast
    have "\<forall>j. c \<le> j \<and> j < k \<longrightarrow> suffixed b j \<in> set taken"
      using k(4) True by (metis Suc_leI le_neq_implies_less)
    moreover have "unique_key b taken name c = suffixed b k"
      using "1.prems" k(2) by (subst unique_key.simps) simp
    ultimately show ?thesis using k(1,3) by (metis Suc_leD)
  next
    case False
    have "unique_key b taken name c = suffixed b c"
      using "1.prems" False by (subst unique_key.simps) (simp add: unique_key_free)
    with False show ?thesis by (metis le_refl not_less)
  qed
qed

lemma update_new: "k \<notin> set (map fst al) \<Longrightarrow> AList.update k v al = al @ [(k, v)]"
  by (induction al) auto

lemma fresh_key_new: "fresh_key secrets b \<notin> set (map fst secrets)"
  unfolding fresh_key_def by (rule unique_key_fresh)

lemma fresh_key_base: "b \<notin> set (map fst secrets) \<Longrightarrow> fresh_key secrets b = b"
  by (simp add: fresh_key_def)

lemma fresh_key_first:
  "b \<in> set (map fst secrets) \<Longrightarrow> suffixed b 1 \<notin> set (map fst secrets) \<Longrightarrow> fresh_key secrets b = suffixed b 1"
  by (simp add: fresh_key_def)

lemma fresh_key_second:
  "b \<in> set (map fst secrets) \<Longrightarrow> suffixed b 1 \<in> set (map fst secrets)
   \<Longrightarrow> suffixed b 2 \<notin> set (map fst secrets) \<Longrightarrow> fresh_key secrets b = suffixed b 2"
  by (simp add: fresh_key_def numeral_2_eq_2)

lemma fresh_key_least:
  "b \<in> set (map fst secrets) \<Longrightarrow>
   \<exists>k. 1 \<le> k \<and> fresh_key secrets b = suffixed b k \<and> suffixed b k \<notin> set (map fst secrets)
       \<and> (\<forall>j. 1 \<le> j \<and> j < k \<longrightarrow> suffixed b j \<in> set (map fst secrets))"
  unfolding fresh_key_def by (rule unique_key_least)

lemma add_account_from_qr_appends:
  "totp_ok (qr_secret qr) \<Longrightarrow>
   add_account_from_qr totp_ok now qr secrets =
     (True, secrets @ [(fresh_key secrets (qr_issuer qr @ ''_'' @ qr_account qr),
                        account_record (qr_secret qr) (qr_account qr) (qr_issuer qr) now)])"
  by (simp add: add_account_from_qr_def Let_def update_new[OF fresh_key_new])

lemma add_account_manual_appends:
  "totp_ok (clean_secret secret) \<Longrightarrow>
   add_account_manual totp_ok now name secret issuer secrets =
     (True, secrets @ [(fresh_key secrets (issuer @ ''_'' @ name),
                        account_record (clean_secret secret) name issuer now)])"
  by (simp add: add_account_manual_def Let_def update_new[OF fresh_key_new])

lemma add_one_distinct: "distinct (map fst secrets) \<Longrightarrow> distinct (map fst (add_one totp_ok r secrets))"
  by (cases r) (simp_all add: add_account_from_qr_def add_account_manual_def Let_def distinct_update)

lemma add_all_distinct: "distinct (map fst secrets) \<Longrightarrow> distinct (map fst (add_all totp_ok rs secrets))"
  unfolding add_all_def by (induction rs arbitrary: secrets) (simp_all add: add_one_distinct)

text \<open>
  Claim C4, as the code has it. An add that passes validation appends one record under
  a key that no record of the store has, so nothing is overwritten. The key is the base
  name \<open>issuer_account\<close> when that is free; otherwise it is the base name with the
  least counter from 1 on whose key is free: suffix \<open>_1\<close> when that key is free,
  \<open>_2\<close> when \<open>_1\<close> is taken too and \<open>_2\<close> is free. After any sequence of adds the keys of
  the store are distinct.
\<close>

theorem added_key_is_first_free:
  assumes "distinct (map fst secrets)"
    and "totp_ok (qr_secret qr)"
    and "totp_ok (clean_secret secret)"
  shows "add_account_from_qr totp_ok now qr secrets =
           (True, secrets @ [(fresh_key secrets (qr_issuer qr @ ''_'' @ qr_account qr),
                              account_record (qr_secret qr) (qr_account qr) (qr_issuer qr) now)])
       \<and> add_account_manual totp_ok now name secret issuer secrets =
           (True, secrets @ [(fresh_key secrets (issuer @ ''_'' @ name),
                              account_record (clean_secret secret) name issuer now)])
       \<and> fresh_key secrets b \<notin> set (map fst secrets)
       \<and> (b \<notin> set (map fst secrets) \<longrightarrow> fresh_key secrets b = b)
       \<and> (b \<in> set (map fst secrets) \<longrightarrow>
            (\<exists>k. 1 \<le> k \<and> fresh_key secrets b = suffixed b k
                 \<and> (\<forall>j. 1 \<le> j \<and> j < k \<longrightarrow> suffixed b j \<in> set (map fst secrets))))
       \<and> (b \<in> set (map fst secrets) \<and> suffixed b 1 \<notin> set (map fst secrets)
            \<longrightarrow> fresh_key secrets b = suffixed b 1)
       \<and> (b \<in> set (map fst secrets) \<and> suffixed b 1 \<in> set (map fst secrets)
            \<and> suffixed b 2 \<notin> set (map fst secrets)
            \<longrightarrow> fresh_key secrets b = suffixed b 2)
       \<and> distinct (map fst (add_all totp_ok requests secrets))"
proof -
  have least: "b \<in> set (map fst secrets) \<longrightarrow>
      (\<exists>k. 1 \<le> k \<and> fresh_key secrets b = suffixed b k
           \<and> (\<forall>j. 1 \<le> j \<and> j < k \<longrightarrow> suffixed b j \<in> set (map fst secrets)))"
    using fresh_key_least[of b secrets] by blast
  show ?thesis
    using assms(2,3) add_account_from_qr_appends[of totp_ok qr now secrets]
      add_account_manual_appends[of totp_ok secret now name issuer secrets]
      fresh_key_new[of secrets b] fresh_key_base[of b secrets] fresh_key_first[of b secrets]
      fresh_key_second[of b secrets] least add_all_distinct[OF assms(1)]
    by blast
qed

text \<open>
  The same account added three times to the empty store: the keys are \<open>A_b\<close>,
  \<open>A_b_1\<close> and \<open>A_b_2\<close>.
\<close>

theorem added_key_is_first_free_witness:
  "distinct (map fst [(''A_b'', account_record ''JBSWY3DPEHPK3PXP'' ''b'' ''A'' 1)])
   \<and> add_account_from_qr (\<lambda>s. s = ''JBSWY3DPEHPK3PXP'') 1
        \<lparr>qr_secret = ''JBSWY3DPEHPK3PXP'', qr_account = ''b'', qr_issuer = ''A''\<rparr> []
      = (True, [(''A_b'', account_record ''JBSWY3DPEHPK3PXP'' ''b'' ''A'' 1)])
   \<and> add_account_from_qr (\<lambda>s. s = ''JBSWY3DPEHPK3PXP'') 2
        \<lparr>qr_secret = ''JBSWY3DPEHPK3PXP'', qr_account = ''b'', qr_issuer = ''A''\<rparr>
        [(''A_b'', account_record ''JBSWY3DPEHPK3PXP'' ''b'' ''A'' 1)]
      = (True, [(''A_b'', account_record ''JBSWY3DPEHPK3PXP'' ''b'' ''A'' 1),
                (''A_b_1'', account_record ''JBSWY3DPEHPK3PXP'' ''b'' ''A'' 2)])
   \<and> add_account_manual (\<lambda>s. s = ''JBSWY3DPEHPK3PXP'') 3 ''b'' ''jbsw y3dp-ehpk 3pxp'' ''A''
        [(''A_b'', account_record ''JBSWY3DPEHPK3PXP'' ''b'' ''A'' 1),
         (''A_b_1'', account_record ''JBSWY3DPEHPK3PXP'' ''b'' ''A'' 2)]
      = (True, [(''A_b'', account_record ''JBSWY3DPEHPK3PXP'' ''b'' ''A'' 1),
                (''A_b_1'', account_record ''JBSWY3DPEHPK3PXP'' ''b'' ''A'' 2),
                (''A_b_2'', account_record ''JBSWY3DPEHPK3PXP'' ''b'' ''A'' 3)])"
proof -
  let ?ok = "\<lambda>s. s = ''JBSWY3DPEHPK3PXP''"
  let ?qr = "\<lparr>qr_secret = ''JBSWY3DPEHPK3PXP'', qr_account = ''b'', qr_issuer = ''A''\<rparr>"
  let ?raw = "''jbsw y3dp-ehpk 3pxp''"
  let ?r1 = "(''A_b'', account_record ''JBSWY3DPEHPK3PXP'' ''b'' ''A'' 1)"
  let ?r2 = "(''A_b_1'', account_record ''JBSWY3DPEHPK3PXP'' ''b'' ''A'' 2)"
  have c: "clean_secret ?raw = ''JBSWY3DPEHPK3PXP''"
    by (simp add: clean_secret_def remove_separators_def upper_def upper_char_def char_eval)
  have ok1: "?ok (qr_secret ?qr)" by simp
  have ok2: "?ok (clean_secret ?raw)" by (simp only: c)
  have d0: "distinct (map fst ([] :: store))" by simp
  have d1: "distinct (map fst [?r1])" by simp
  have d2: "distinct (map fst [?r1, ?r2])" by simp
  have s1: "suffixed ''A_b'' (Suc 0) = ''A_b_1''"
    by (simp add: suffixed_def digit_char_def char_eval)
  have s2: "suffixed ''A_b'' 2 = ''A_b_2''" by (simp add: suffixed_def digit_char_def char_eval)
  note t0 = added_key_is_first_free[where totp_ok = "?ok" and qr = "?qr" and secret = "?raw"
      and secrets = "[]" and now = 1 and name = "''b''" and issuer = "''A''" and b = "''A_b''"
      and requests = "[]", OF d0 ok1 ok2]
  note t1 = added_key_is_first_free[where totp_ok = "?ok" and qr = "?qr" and secret = "?raw"
      and secrets = "[?r1]" and now = 2 and name = "''b''" and issuer = "''A''" and b = "''A_b''"
      and requests = "[]", OF d1 ok1 ok2]
  note t2 = added_key_is_first_free[where totp_ok = "?ok" and qr = "?qr" and secret = "?raw"
      and secrets = "[?r1, ?r2]" and now = 3 and name = "''b''" and issuer = "''A''" and b = "''A_b''"
      and requests = "[]", OF d2 ok1 ok2]
  have k0: "fresh_key [] ''A_b'' = ''A_b''" using t0 by simp
  have k1: "fresh_key [?r1] ''A_b'' = ''A_b_1''" using t1 by (simp add: s1)
  have k2: "fresh_key [?r1, ?r2] ''A_b'' = ''A_b_2''" using t2 by (simp add: s1 s2)
  have a0: "add_account_from_qr ?ok 1 ?qr [] = (True, [?r1])"
    using t0 k0 by simp
  have a1: "add_account_from_qr ?ok 2 ?qr [?r1] = (True, [?r1, ?r2])"
    using t1 k1 by simp
  have a2: "add_account_manual ?ok 3 ''b'' ?raw ''A'' [?r1, ?r2]
      = (True, [?r1, ?r2, (''A_b_2'', account_record ''JBSWY3DPEHPK3PXP'' ''b'' ''A'' 3)])"
    using t2 k2 c by simp
  show ?thesis using d1 a0 a1 a2 by blast
qed

text \<open>
  An account \<open>b_1\<close> of issuer \<open>A\<close> is added first and holds the key \<open>A_b_1\<close>. The
  second account \<open>b\<close> of issuer \<open>A\<close> then gets the suffix \<open>_2\<close>, not \<open>_1\<close>.
\<close>

theorem second_identical_add_gets_suffix_2:
  "map fst (add_all (\<lambda>s. s = ''JBSWY3DPEHPK3PXP'')
     [QrAdd \<lparr>qr_secret = ''JBSWY3DPEHPK3PXP'', qr_account = ''b_1'', qr_issuer = ''A''\<rparr> 1,
      QrAdd \<lparr>qr_secret = ''JBSWY3DPEHPK3PXP'', qr_account = ''b'', qr_issuer = ''A''\<rparr> 2,
      QrAdd \<lparr>qr_secret = ''JBSWY3DPEHPK3PXP'', qr_account = ''b'', qr_issuer = ''A''\<rparr> 3] [])
   = [''A_b_1'', ''A_b'', ''A_b_2'']"
  by (simp add: add_all_def add_account_from_qr_def fresh_key_def suffixed_def digit_char_def
      char_eval account_record_def numeral_2_eq_2)

section \<open>Manual entry and the length of the secret\<close>

lemma length_filter_dropWhile: "length (filter P (dropWhile Q xs)) \<le> length (filter P xs)"
  by (induction xs) auto

lemma length_filter_strip: "length (filter P (strip s)) \<le> length (filter P s)"
proof -
  have "length (filter P (strip s)) = length (filter P (dropWhile is_space (rev (dropWhile is_space s))))"
    by (simp add: strip_def rev_filter[symmetric])
  also have "\<dots> \<le> length (filter P (rev (dropWhile is_space s)))"
    by (rule length_filter_dropWhile)
  also have "\<dots> = length (filter P (dropWhile is_space s))"
    by (simp add: rev_filter[symmetric])
  also have "\<dots> \<le> length (filter P s)"
    by (rule length_filter_dropWhile)
  finally show ?thesis .
qed

lemma remove_separators_strip:
  "length (remove_separators (strip s)) \<le> length (clean_secret s)"
  by (simp add: clean_secret_def upper_def remove_separators_def length_filter_strip)

lemma manual_accept_too_short:
  assumes "strip account_var \<noteq> []" and "strip secret_var \<noteq> []"
    and "length (clean_secret secret_var) < 16"
  shows "manual_accept service_var account_var secret_var = Inl SecretTooShort"
proof -
  have "length (remove_separators (strip secret_var)) < MIN_SECRET_LENGTH"
    using remove_separators_strip[of secret_var] assms(3) by (simp add: MIN_SECRET_LENGTH_def)
  then show ?thesis using assms(1,2) by (simp add: manual_accept_def Let_def)
qed

lemma show_manual_entry_too_short:
  assumes "strip account_var \<noteq> []" and "strip secret_var \<noteq> []"
    and "length (clean_secret secret_var) < 16"
  shows "show_manual_entry totp_ok now save_ok service_var account_var secret_var secrets
         = (Rejected SecretTooShort, secrets)"
  by (simp add: show_manual_entry_def manual_accept_too_short[OF assms])

lemma strip_plain: "strip ''bob'' = ''bob'' \<and> strip ''Test'' = ''Test'' \<and> strip ''short'' = ''short''
   \<and> strip ''JBSWY3DPEHPK3PXP'' = ''JBSWY3DPEHPK3PXP''"
  by (simp add: strip_def is_space_def)

lemma clean_example: "clean_secret ''JBSWY3DPEHPK3PXP'' = ''JBSWY3DPEHPK3PXP''"
  by (simp add: clean_secret_def remove_separators_def upper_def upper_char_def)

lemma accept_example:
  "manual_accept ''Test'' ''bob'' ''JBSWY3DPEHPK3PXP''
   = Inr \<lparr>entry_issuer = ''Test'', entry_account = ''bob'', entry_secret = ''JBSWY3DPEHPK3PXP''\<rparr>"
  by (simp add: manual_accept_def Let_def strip_plain remove_separators_def MIN_SECRET_LENGTH_def)

lemma short_example:
  "show_manual_entry totp_ok now save_ok ''Test'' ''bob'' ''short'' secrets = (Rejected SecretTooShort, secrets)"
  by (rule show_manual_entry_too_short) (simp_all add: strip_plain clean_secret_def remove_separators_def upper_def)

lemma good_example:
  "totp_ok ''JBSWY3DPEHPK3PXP'' \<Longrightarrow>
   show_manual_entry totp_ok now True ''Test'' ''bob'' ''JBSWY3DPEHPK3PXP'' []
   = (Added, [(''Test_bob'', account_record ''JBSWY3DPEHPK3PXP'' ''bob'' ''Test'' now)])"
  by (simp add: show_manual_entry_def accept_example add_account_manual_def clean_example fresh_key_def)

text \<open>
  Claim C1, as the code has it. The length check is in the dialog
  (\<^verbatim>\<open>ManualEntryDialog.accept\<close>), after the checks for a blank account name and a
  blank secret. When neither is blank and the normalized secret (spaces and hyphens
  removed, upper-cased) has fewer than 16 characters, the dialog reports
  \<open>SecretTooShort\<close>, \<^verbatim>\<open>add_account_manual\<close> is not called whatever pyotp would say,
  and the store is unchanged. Account \<open>bob\<close> of issuer \<open>Test\<close> with the secret \<open>short\<close>
  is rejected in this way; with the secret \<open>JBSWY3DPEHPK3PXP\<close> it is added when pyotp
  accepts the secret.
\<close>

theorem manual_entry_rejects_short_secret:
  assumes "strip account_var \<noteq> []" and "strip secret_var \<noteq> []"
    and "length (clean_secret secret_var) < 16"
  shows "show_manual_entry totp_ok now save_ok service_var account_var secret_var secrets
           = (Rejected SecretTooShort, secrets)
       \<and> show_manual_entry totp_ok now save_ok ''Test'' ''bob'' ''short'' secrets
           = (Rejected SecretTooShort, secrets)
       \<and> (totp_ok ''JBSWY3DPEHPK3PXP'' \<longrightarrow>
            show_manual_entry totp_ok now True ''Test'' ''bob'' ''JBSWY3DPEHPK3PXP'' []
              = (Added, [(''Test_bob'', account_record ''JBSWY3DPEHPK3PXP'' ''bob'' ''Test'' now)]))"
  using show_manual_entry_too_short[OF assms, of totp_ok now save_ok service_var secrets]
    short_example[of totp_ok now save_ok secrets] good_example[of totp_ok now]
  by blast

theorem manual_entry_rejects_short_secret_witness:
  "strip '' bob '' \<noteq> [] \<and> strip ''abcd-efgh ijkl'' \<noteq> []
   \<and> length (clean_secret ''abcd-efgh ijkl'') < 16
   \<and> show_manual_entry (\<lambda>s. s = ''JBSWY3DPEHPK3PXP'') 5 True [] '' bob '' ''abcd-efgh ijkl'' []
        = (Rejected SecretTooShort, [])
   \<and> show_manual_entry (\<lambda>s. s = ''JBSWY3DPEHPK3PXP'') 5 True ''Test'' ''bob'' ''short'' []
        = (Rejected SecretTooShort, [])
   \<and> show_manual_entry (\<lambda>s. s = ''JBSWY3DPEHPK3PXP'') 5 True ''Test'' ''bob'' ''JBSWY3DPEHPK3PXP'' []
        = (Added, [(''Test_bob'', account_record ''JBSWY3DPEHPK3PXP'' ''bob'' ''Test'' 5)])"
proof -
  have h1: "strip '' bob '' \<noteq> []" by (simp add: strip_def is_space_def)
  have h2: "strip ''abcd-efgh ijkl'' \<noteq> []" by (simp add: strip_def is_space_def)
  have h3: "length (clean_secret ''abcd-efgh ijkl'') < 16"
    by (simp add: clean_secret_def upper_def remove_separators_def)
  show ?thesis
    using manual_entry_rejects_short_secret[OF h1 h2 h3,
        where totp_ok = "\<lambda>s. s = ''JBSWY3DPEHPK3PXP''" and now = 5 and save_ok = True
          and service_var = "[]" and secrets = "[]"]
      h1 h2 h3
    by simp
qed

text \<open>
  A blank account name and a blank secret are each reported with an error of their own,
  although the normalized secret is shorter than 16 characters in both cases.
\<close>

theorem blank_fields_are_not_too_short:
  "show_manual_entry (\<lambda>s. s = ''JBSWY3DPEHPK3PXP'') 0 True ''Test'' [] ''short'' []
     = (Rejected NoAccountName, [])
   \<and> show_manual_entry (\<lambda>s. s = ''JBSWY3DPEHPK3PXP'') 0 True ''Test'' ''bob'' [] []
     = (Rejected NoSecretKey, [])"
  by (simp add: show_manual_entry_def manual_accept_def strip_def is_space_def)

section \<open>The secret that is stored\<close>

lemma upper_char_code:
  "(of_char (upper_char c) :: nat) =
     (if 97 \<le> (of_char c :: nat) \<and> (of_char c :: nat) \<le> 122 then of_char c - 32 else of_char c)"
  by (auto simp: upper_char_def)

lemma upper_char_idem: "upper_char (upper_char c) = upper_char c"
proof -
  have "\<not> (97 \<le> (of_char (upper_char c) :: nat) \<and> (of_char (upper_char c) :: nat) \<le> 122)"
    by (simp add: upper_char_code) arith
  then show ?thesis by (subst upper_char_def) auto
qed

lemma upper_idem: "upper (upper s) = upper s"
  by (simp add: upper_def upper_char_idem)

lemma upper_char_not_space: "c \<noteq> CHR '' '' \<Longrightarrow> upper_char c \<noteq> CHR '' ''"
proof
  assume c: "c \<noteq> CHR '' ''" and u: "upper_char c = CHR '' ''"
  have "(of_char (upper_char c) :: nat) = 32" by (simp add: u)
  then have "(of_char c :: nat) = 32" by (simp add: upper_char_code split: if_splits)
  then have "(of_char c :: nat) = of_char CHR '' ''" by simp
  then have "c = CHR '' ''" by (simp only: of_char_eq_iff)
  with c show False by simp
qed

lemma upper_char_not_hyphen: "c \<noteq> CHR ''-'' \<Longrightarrow> upper_char c \<noteq> CHR ''-''"
proof
  assume c: "c \<noteq> CHR ''-''" and u: "upper_char c = CHR ''-''"
  have "(of_char (upper_char c) :: nat) = 45" by (simp add: u)
  then have "(of_char c :: nat) = 45" by (simp add: upper_char_code split: if_splits)
  then have "(of_char c :: nat) = of_char CHR ''-''" by simp
  then have "c = CHR ''-''" by (simp only: of_char_eq_iff)
  with c show False by simp
qed

lemma clean_secret_no_space: "CHR '' '' \<notin> set (clean_secret s)"
  by (auto simp: clean_secret_def upper_def remove_separators_def dest: upper_char_not_space)

lemma clean_secret_no_hyphen: "CHR ''-'' \<notin> set (clean_secret s)"
  by (auto simp: clean_secret_def upper_def remove_separators_def dest: upper_char_not_hyphen)

lemma clean_secret_upper: "upper (clean_secret s) = clean_secret s"
  by (simp add: clean_secret_def upper_idem)

lemma add_account_from_qr_cases:
  "add_account_from_qr totp_ok now qr secrets =
     (if totp_ok (qr_secret qr)
      then (True, secrets @ [(fresh_key secrets (qr_issuer qr @ ''_'' @ qr_account qr),
                        account_record (qr_secret qr) (qr_account qr) (qr_issuer qr) now)])
      else (False, secrets))"
  by (simp add: add_account_from_qr_appends) (simp add: add_account_from_qr_def)

lemma add_account_manual_cases:
  "add_account_manual totp_ok now name secret issuer secrets =
     (if totp_ok (clean_secret secret)
      then (True, secrets @ [(fresh_key secrets (issuer @ ''_'' @ name),
                        account_record (clean_secret secret) name issuer now)])
      else (False, secrets))"
  by (simp add: add_account_manual_appends) (simp add: add_account_manual_def)

text \<open>
  Claim C2, as the code has it. \<^verbatim>\<open>add_account_from_qr\<close> validates the secret of
  the candidate as it was parsed and stores that same string; it does not normalize.
  \<^verbatim>\<open>add_account_manual\<close> removes spaces and hyphens and upper-cases first, then
  validates and stores the result, which has no space, no hyphen and is left unchanged by
  upper-casing. On either path a record is stored only when pyotp accepted the string that
  is stored.
\<close>

theorem stored_secret_of_each_add_path:
  "add_account_from_qr totp_ok now qr secrets =
     (if totp_ok (qr_secret qr)
      then (True, secrets @ [(fresh_key secrets (qr_issuer qr @ ''_'' @ qr_account qr),
                              account_record (qr_secret qr) (qr_account qr) (qr_issuer qr) now)])
      else (False, secrets))
   \<and> add_account_manual totp_ok now name secret issuer secrets =
     (if totp_ok (clean_secret secret)
      then (True, secrets @ [(fresh_key secrets (issuer @ ''_'' @ name),
                              account_record (clean_secret secret) name issuer now)])
      else (False, secrets))
   \<and> CHR '' '' \<notin> set (clean_secret secret)
   \<and> CHR ''-'' \<notin> set (clean_secret secret)
   \<and> upper (clean_secret secret) = clean_secret secret"
  using add_account_from_qr_cases[of totp_ok now qr secrets]
    add_account_manual_cases[of totp_ok now name secret issuer secrets]
    clean_secret_no_space[of secret] clean_secret_no_hyphen[of secret] clean_secret_upper[of secret]
  by blast

text \<open>
  A QR payload with a lower-case secret, which pyotp accepts (it decodes base32 without
  regard to case): the candidate carries the secret as written, the record stored for it
  carries it too, and the normalized form is a different string.
\<close>

theorem qr_secret_is_stored_as_parsed:
  "extract_secret_from_image (Some ''otpauth://totp/Example:alice?secret=jbswy3dpehpk3pxp'')
     = Some \<lparr>qr_secret = ''jbswy3dpehpk3pxp'', qr_account = ''alice'', qr_issuer = ''Example''\<rparr>
   \<and> add_account_from_qr (\<lambda>s. s = ''jbswy3dpehpk3pxp'') 1
       \<lparr>qr_secret = ''jbswy3dpehpk3pxp'', qr_account = ''alice'', qr_issuer = ''Example''\<rparr> []
     = (True, [(''Example_alice'', account_record ''jbswy3dpehpk3pxp'' ''alice'' ''Example'' 1)])
   \<and> clean_secret ''jbswy3dpehpk3pxp'' = ''JBSWY3DPEHPK3PXP''"
proof -
  have e1: "extract_secret_from_image (Some ''otpauth://totp/Example:alice?secret=jbswy3dpehpk3pxp'')
     = Some \<lparr>qr_secret = ''jbswy3dpehpk3pxp'', qr_account = ''alice'', qr_issuer = ''Example''\<rparr>"
    by (simp add: extract_secret_from_image_def parse_qs_def parse_field_def before_first_def
        after_first_def plus_to_space_def urlparse_query_def urlparse_path_def url_rest_def
        unsafe_removed_def params_get_def lstrip_char_def split_label_def)
  have e2: "add_account_from_qr (\<lambda>s. s = ''jbswy3dpehpk3pxp'') 1
       \<lparr>qr_secret = ''jbswy3dpehpk3pxp'', qr_account = ''alice'', qr_issuer = ''Example''\<rparr> []
     = (True, [(''Example_alice'', account_record ''jbswy3dpehpk3pxp'' ''alice'' ''Example'' 1)])"
    by (simp add: add_account_from_qr_def fresh_key_def)
  have e3: "clean_secret ''jbswy3dpehpk3pxp'' = ''JBSWY3DPEHPK3PXP''"
    by (simp add: clean_secret_def remove_separators_def upper_def upper_char_def char_eval)
  show ?thesis using e1 e2 e3 by blast
qed

section \<open>What the parser returns\<close>

lemmas parse_eval = extract_secret_from_image_def parse_qs_def parse_field_def before_first_def
  after_first_def plus_to_space_def urlparse_query_def urlparse_path_def url_rest_def
  unsafe_removed_def params_get_def lstrip_char_def split_label_def

lemma unquote_nonempty: "s \<noteq> [] \<Longrightarrow> unquote s \<noteq> []"
  by (cases s rule: unquote.cases) (auto split: option.splits)

lemma parse_field_value: "(k, v) \<in> set (parse_field nv) \<Longrightarrow> v \<noteq> []"
  by (auto simp: parse_field_def plus_to_space_def unquote_nonempty split: if_splits)

lemma parse_qs_value: "(k, v) \<in> set (parse_qs qs) \<Longrightarrow> v \<noteq> []"
  by (auto simp: parse_qs_def dest: parse_field_value)

lemma params_get_value: "params_get (parse_qs qs) k = Some v \<Longrightarrow> v \<noteq> []"
  unfolding params_get_def by (blast dest: map_of_SomeD parse_qs_value)

lemma extract_none: "extract_secret_from_image None = None"
  by (simp add: extract_secret_from_image_def)

lemma extract_no_prefix:
  "take (length ''otpauth://totp/'') raw \<noteq> ''otpauth://totp/'' \<Longrightarrow> extract_secret_from_image (Some raw) = None"
  by (simp add: extract_secret_from_image_def)

lemma extract_no_secret:
  "params_get (parse_qs (urlparse_query raw)) ''secret'' = None \<Longrightarrow> extract_secret_from_image (Some raw) = None"
  by (simp add: extract_secret_from_image_def Let_def)

lemma extract_some:
  assumes "take (length ''otpauth://totp/'') raw = ''otpauth://totp/''"
    and "params_get (parse_qs (urlparse_query raw)) ''secret'' = Some s"
  shows "extract_secret_from_image (Some raw) =
     Some \<lparr>qr_secret = s,
           qr_account = snd (split_label
              (case params_get (parse_qs (urlparse_query raw)) ''issuer'' of Some v \<Rightarrow> v | None \<Rightarrow> ''Unknown'')
              (lstrip_char CHR ''/'' (urlparse_path raw))),
           qr_issuer = fst (split_label
              (case params_get (parse_qs (urlparse_query raw)) ''issuer'' of Some v \<Rightarrow> v | None \<Rightarrow> ''Unknown'')
              (lstrip_char CHR ''/'' (urlparse_path raw)))\<rparr>"
proof -
  have "s \<noteq> []" using assms(2) by (rule params_get_value)
  moreover have "raw \<noteq> []" using assms(1) by auto
  ultimately show ?thesis using assms by (simp add: extract_secret_from_image_def Let_def)
qed

lemma extract_SomeD:
  assumes "extract_secret_from_image decoded = Some r"
  shows "\<exists>raw. decoded = Some raw \<and> take (length ''otpauth://totp/'') raw = ''otpauth://totp/''
         \<and> params_get (parse_qs (urlparse_query raw)) ''secret'' = Some (qr_secret r) \<and> qr_secret r \<noteq> []"
  using assms by (auto simp: extract_secret_from_image_def Let_def split: option.splits if_splits)

lemma split_label_colon:
  "CHR '':'' \<in> set label \<Longrightarrow>
   split_label issuer label = (if issuer = ''Unknown'' then before_first CHR '':'' label else issuer, after_first CHR '':'' label)"
  by (simp add: split_label_def)

lemma split_at_first:
  assumes "c \<in> set s"
  shows "s = before_first c s @ [c] @ after_first c s \<and> c \<notin> set (before_first c s)"
proof -
  have ne: "dropWhile (\<lambda>x. x \<noteq> c) s \<noteq> []" using assms by (simp add: dropWhile_eq_Nil_conv)
  then have "hd (dropWhile (\<lambda>x. x \<noteq> c) s) = c" using hd_dropWhile[of "\<lambda>x. x \<noteq> c" s] by simp
  with ne have d: "dropWhile (\<lambda>x. x \<noteq> c) s = c # after_first c s"
    by (cases "dropWhile (\<lambda>x. x \<noteq> c) s") (simp_all add: after_first_def)
  have "s = takeWhile (\<lambda>x. x \<noteq> c) s @ dropWhile (\<lambda>x. x \<noteq> c) s" by simp
  then have "s = before_first c s @ [c] @ after_first c s" using d by (simp add: before_first_def)
  moreover have "c \<notin> set (before_first c s)"
    unfolding before_first_def by (metis (mono_tags, lifting) set_takeWhileD)
  ultimately show ?thesis by blast
qed

text \<open>
  Claim C5. For a payload that starts with \<^verbatim>\<open>otpauth://totp/\<close>, carries a secret and
  whose label contains a colon: the secret is the \<^verbatim>\<open>secret\<close> parameter, the account
  is the label after its first colon, and the issuer is the label before its first colon
  when the \<^verbatim>\<open>issuer\<close> parameter is absent or is \<^verbatim>\<open>Unknown\<close>, and the
  \<^verbatim>\<open>issuer\<close> parameter otherwise. The payload of the specification gives the secret
  \<open>JBSWY3DPEHPK3PXP\<close>, the account \<open>alice@example.com\<close> and the issuer \<open>Example\<close>.
\<close>

theorem label_with_colon_splits:
  assumes "take (length ''otpauth://totp/'') raw = ''otpauth://totp/''"
    and "label = lstrip_char CHR ''/'' (urlparse_path raw)"
    and "params = parse_qs (urlparse_query raw)"
    and "CHR '':'' \<in> set label"
    and "params_get params ''secret'' = Some s"
  shows "extract_secret_from_image (Some raw) =
           Some \<lparr>qr_secret = s,
                 qr_account = after_first CHR '':'' label,
                 qr_issuer = (case params_get params ''issuer'' of
                                None \<Rightarrow> before_first CHR '':'' label
                              | Some i \<Rightarrow> if i = ''Unknown'' then before_first CHR '':'' label else i)\<rparr>
       \<and> label = before_first CHR '':'' label @ '':'' @ after_first CHR '':'' label
       \<and> CHR '':'' \<notin> set (before_first CHR '':'' label)
       \<and> extract_secret_from_image
           (Some ''otpauth://totp/Example:alice@example.com?secret=JBSWY3DPEHPK3PXP&issuer=Example'')
         = Some \<lparr>qr_secret = ''JBSWY3DPEHPK3PXP'', qr_account = ''alice@example.com'',
                 qr_issuer = ''Example''\<rparr>"
proof -
  have s: "params_get (parse_qs (urlparse_query raw)) ''secret'' = Some s"
    using assms(3,5) by simp
  have "extract_secret_from_image (Some raw) =
           Some \<lparr>qr_secret = s,
                 qr_account = after_first CHR '':'' label,
                 qr_issuer = (case params_get params ''issuer'' of
                                None \<Rightarrow> before_first CHR '':'' label
                              | Some i \<Rightarrow> if i = ''Unknown'' then before_first CHR '':'' label else i)\<rparr>"
    unfolding extract_some[OF assms(1) s] assms(2)[symmetric] assms(3)[symmetric]
    by (simp add: split_label_colon[OF assms(4)] split: option.splits)
  moreover have "extract_secret_from_image
           (Some ''otpauth://totp/Example:alice@example.com?secret=JBSWY3DPEHPK3PXP&issuer=Example'')
         = Some \<lparr>qr_secret = ''JBSWY3DPEHPK3PXP'', qr_account = ''alice@example.com'',
                 qr_issuer = ''Example''\<rparr>"
    by (simp add: parse_eval)
  ultimately show ?thesis using split_at_first[OF assms(4)] by simp
qed

text \<open>
  Three payloads with the label \<open>Acme:bob\<close>: no \<^verbatim>\<open>issuer\<close> parameter, the parameter
  \<open>Other\<close>, and the parameter \<open>Unknown\<close>.
\<close>

theorem label_with_colon_splits_witness:
  "take (length ''otpauth://totp/'') ''otpauth://totp/Acme:bob?secret=ABCD'' = ''otpauth://totp/''
   \<and> CHR '':'' \<in> set ''Acme:bob''
   \<and> extract_secret_from_image (Some ''otpauth://totp/Acme:bob?secret=ABCD'')
       = Some \<lparr>qr_secret = ''ABCD'', qr_account = ''bob'', qr_issuer = ''Acme''\<rparr>
   \<and> extract_secret_from_image (Some ''otpauth://totp/Acme:bob?secret=ABCD&issuer=Other'')
       = Some \<lparr>qr_secret = ''ABCD'', qr_account = ''bob'', qr_issuer = ''Other''\<rparr>
   \<and> extract_secret_from_image (Some ''otpauth://totp/Acme:bob?secret=ABCD&issuer=Unknown'')
       = Some \<lparr>qr_secret = ''ABCD'', qr_account = ''bob'', qr_issuer = ''Acme''\<rparr>"
proof -
  let ?r1 = "''otpauth://totp/Acme:bob?secret=ABCD''"
  let ?r2 = "''otpauth://totp/Acme:bob?secret=ABCD&issuer=Other''"
  let ?r3 = "''otpauth://totp/Acme:bob?secret=ABCD&issuer=Unknown''"
  have c: "CHR '':'' \<in> set ''Acme:bob''" by simp
  have p1: "take (length ''otpauth://totp/'') ?r1 = ''otpauth://totp/''" by simp
  have p2: "take (length ''otpauth://totp/'') ?r2 = ''otpauth://totp/''" by simp
  have p3: "take (length ''otpauth://totp/'') ?r3 = ''otpauth://totp/''" by simp
  have l1: "''Acme:bob'' = lstrip_char CHR ''/'' (urlparse_path ?r1)" by (simp add: parse_eval)
  have l2: "''Acme:bob'' = lstrip_char CHR ''/'' (urlparse_path ?r2)" by (simp add: parse_eval)
  have l3: "''Acme:bob'' = lstrip_char CHR ''/'' (urlparse_path ?r3)" by (simp add: parse_eval)
  have q1: "[(''secret'', ''ABCD'')] = parse_qs (urlparse_query ?r1)" by (simp add: parse_eval)
  have q2: "[(''secret'', ''ABCD''), (''issuer'', ''Other'')] = parse_qs (urlparse_query ?r2)"
    by (simp add: parse_eval)
  have q3: "[(''secret'', ''ABCD''), (''issuer'', ''Unknown'')] = parse_qs (urlparse_query ?r3)"
    by (simp add: parse_eval)
  have g1: "params_get [(''secret'', ''ABCD'')] ''secret'' = Some ''ABCD''"
    by (simp add: params_get_def)
  have g2: "params_get [(''secret'', ''ABCD''), (''issuer'', ''Other'')] ''secret'' = Some ''ABCD''"
    by (simp add: params_get_def)
  have g3: "params_get [(''secret'', ''ABCD''), (''issuer'', ''Unknown'')] ''secret'' = Some ''ABCD''"
    by (simp add: params_get_def)
  have e1: "extract_secret_from_image (Some ?r1)
       = Some \<lparr>qr_secret = ''ABCD'', qr_account = ''bob'', qr_issuer = ''Acme''\<rparr>"
    using label_with_colon_splits[OF p1 l1 q1 c g1]
    by (simp add: params_get_def before_first_def after_first_def)
  have e2: "extract_secret_from_image (Some ?r2)
       = Some \<lparr>qr_secret = ''ABCD'', qr_account = ''bob'', qr_issuer = ''Other''\<rparr>"
    using label_with_colon_splits[OF p2 l2 q2 c g2]
    by (simp add: params_get_def before_first_def after_first_def)
  have e3: "extract_secret_from_image (Some ?r3)
       = Some \<lparr>qr_secret = ''ABCD'', qr_account = ''bob'', qr_issuer = ''Acme''\<rparr>"
    using label_with_colon_splits[OF p3 l3 q3 c g3]
    by (simp add: params_get_def before_first_def after_first_def)
  show ?thesis using p1 c e1 e2 e3 by blast
qed

text \<open>
  Claim C6. The parser returns nothing when the decoder returned nothing, when the
  payload does not start with \<^verbatim>\<open>otpauth://totp/\<close>, and when the query has no
  \<^verbatim>\<open>secret\<close> parameter with a value. Whenever it returns a record, the payload had
  the prefix and the record carries the secret of the query, which is not empty.
\<close>

theorem parser_returns_nothing:
  "extract_secret_from_image None = None
   \<and> (take (length ''otpauth://totp/'') raw \<noteq> ''otpauth://totp/''
        \<longrightarrow> extract_secret_from_image (Some raw) = None)
   \<and> (params_get (parse_qs (urlparse_query raw)) ''secret'' = None
        \<longrightarrow> extract_secret_from_image (Some raw) = None)
   \<and> (extract_secret_from_image decoded = Some r \<longrightarrow>
        (\<exists>payload. decoded = Some payload
           \<and> take (length ''otpauth://totp/'') payload = ''otpauth://totp/''
           \<and> params_get (parse_qs (urlparse_query payload)) ''secret'' = Some (qr_secret r)
           \<and> qr_secret r \<noteq> []))"
  using extract_none extract_no_prefix[of raw] extract_no_secret[of raw] extract_SomeD[of decoded r]
  by blast

theorem parser_returns_nothing_witness:
  "take (length ''otpauth://totp/'') ''not-a-totp-uri'' \<noteq> ''otpauth://totp/''
   \<and> extract_secret_from_image (Some ''not-a-totp-uri'') = None
   \<and> params_get (parse_qs (urlparse_query ''otpauth://totp/Example:alice?issuer=Example'')) ''secret''
       = None
   \<and> extract_secret_from_image (Some ''otpauth://totp/Example:alice?issuer=Example'') = None
   \<and> extract_secret_from_image (Some ''otpauth://totp/Example:alice?secret=&issuer=Example'') = None
   \<and> extract_secret_from_image (Some ''otpauth://totp/Acme:bob?secret=ABCD'')
       = Some \<lparr>qr_secret = ''ABCD'', qr_account = ''bob'', qr_issuer = ''Acme''\<rparr>
   \<and> params_get (parse_qs (urlparse_query ''otpauth://totp/Acme:bob?secret=ABCD'')) ''secret''
       = Some ''ABCD''"
proof -
  let ?u1 = "''not-a-totp-uri''"
  let ?u2 = "''otpauth://totp/Example:alice?issuer=Example''"
  let ?u3 = "''otpauth://totp/Example:alice?secret=&issuer=Example''"
  let ?u4 = "''otpauth://totp/Acme:bob?secret=ABCD''"
  let ?r4 = "\<lparr>qr_secret = ''ABCD'', qr_account = ''bob'', qr_issuer = ''Acme''\<rparr>"
  have h1: "take (length ''otpauth://totp/'') ?u1 \<noteq> ''otpauth://totp/''" by simp
  have h2: "params_get (parse_qs (urlparse_query ?u2)) ''secret'' = None" by (simp add: parse_eval)
  have h3: "params_get (parse_qs (urlparse_query ?u3)) ''secret'' = None" by (simp add: parse_eval)
  have h4: "extract_secret_from_image (Some ?u4) = Some ?r4" by (simp add: parse_eval)
  have n1: "extract_secret_from_image (Some ?u1) = None"
    using parser_returns_nothing[of ?u1] h1 by blast
  have n2: "extract_secret_from_image (Some ?u2) = None"
    using parser_returns_nothing[of ?u2] h2 by blast
  have n3: "extract_secret_from_image (Some ?u3) = None"
    using parser_returns_nothing[of ?u3] h3 by blast
  have s4: "params_get (parse_qs (urlparse_query ?u4)) ''secret'' = Some ''ABCD''"
    using parser_returns_nothing[of ?u1 "Some ?u4" ?r4] h4 by simp
  show ?thesis using h1 n1 h2 n2 n3 h4 s4 by blast
qed

section \<open>What loading leaves in the store\<close>

lemma legacy_load:
  "has_key ''salt'' members \<Longrightarrow> has_key ''data'' members \<Longrightarrow>
   load_secrets secrets (Content (JObj members)) = (True, JObj [])"
  by simp

text \<open>
  Claim C7. A storage file whose top level is an object with exactly the keys
  \<^verbatim>\<open>salt\<close> and \<^verbatim>\<open>data\<close> is loaded with success and leaves the store empty,
  whatever the store held before and whatever the two members hold; nothing of the
  document is taken over. This holds in particular at startup.
\<close>

theorem legacy_document_loads_empty:
  assumes "set (map fst members) = {''salt'', ''data''}"
  shows "load_secrets secrets (Content (JObj members)) = (True, JObj [])
       \<and> startup_load (Content (JObj members)) = (True, JObj [])"
proof -
  have "has_key ''salt'' members" and "has_key ''data'' members"
    using assms by (simp_all add: has_key_def)
  then show ?thesis
    using legacy_load[of members secrets] legacy_load[of members initial_secrets]
    by (simp only: startup_load_def)
qed

theorem legacy_document_loads_empty_witness:
  "set (map fst [(''salt'', JStr ''x''), (''data'', JStr ''y'')]) = {''salt'', ''data''}
   \<and> load_secrets (JObj [(''A_b'', JStr ''JBSWY3DPEHPK3PXP'')])
        (Content (JObj [(''salt'', JStr ''x''), (''data'', JStr ''y'')])) = (True, JObj [])
   \<and> startup_load (Content (JObj [(''salt'', JStr ''x''), (''data'', JStr ''y'')])) = (True, JObj [])"
proof -
  have h: "set (map fst [(''salt'', JStr ''x''), (''data'', JStr ''y'')]) = {''salt'', ''data''}"
    by simp
  show ?thesis
    using legacy_document_loads_empty[OF h, of "JObj [(''A_b'', JStr ''JBSWY3DPEHPK3PXP'')]"] h
    by blast
qed

lemma load_missing_or_unreadable:
  "load_secrets secrets Missing = (True, JObj [])
   \<and> load_secrets secrets Unreadable = (False, secrets)
   \<and> startup_load Missing = (True, JObj [])
   \<and> startup_load Unreadable = (False, JObj [])"
  by (simp add: startup_load_def initial_secrets_def)

lemma load_adopts_content:
  "\<not> legacy_encrypted data \<Longrightarrow> load_secrets secrets (Content data) = (True, data)"
  by simp

text \<open>
  Claim C8. A missing storage file makes the store empty and the load succeeds; a file
  that cannot be opened or parsed makes the load return False, and at startup the store
  is empty afterwards. The code departs from the claim on content that parses but is not
  a mapping of accounts: a file holding the array \<open>[1, 2]\<close> raises nothing, so the load
  returns True and the array becomes the store, against the declaration
  \<^verbatim>\<open>Dict[str, Any]\<close> of line 176. It departs a second time in the handler of
  line 199, which assigns nothing where the branches of lines 184 and 193 assign the empty
  dictionary: a manager that holds an account keeps it when the load fails.
\<close>

theorem load_adopts_array_and_keeps_store:
  "startup_load (Content (JArr [JNum 1, JNum 2])) = (True, JArr [JNum 1, JNum 2])
   \<and> load_secrets (JObj [(''A_b'', JStr ''JBSWY3DPEHPK3PXP'')]) Unreadable
       = (False, JObj [(''A_b'', JStr ''JBSWY3DPEHPK3PXP'')])"
  by (simp add: startup_load_def)

section \<open>Export followed by import\<close>

lemma fold_update_appends:
  "distinct (map fst (d @ other)) \<Longrightarrow> dict_update d other = d @ other"
proof (induction other arbitrary: d)
  case Nil
  then show ?case by (simp add: dict_update_def)
next
  case (Cons kv other)
  obtain k v where kv: "kv = (k, v)" by (cases kv)
  have k: "k \<notin> set (map fst d)" using Cons.prems kv by auto
  have "dict_update d (kv # other) = dict_update (d @ [(k, v)]) other"
    using update_new[OF k, of v] by (simp add: dict_update_def kv)
  also have "\<dots> = (d @ [(k, v)]) @ other"
    using Cons.prems kv by (intro Cons.IH) simp
  finally show ?case by (simp add: kv)
qed

lemma import_into_empty:
  assumes "distinct (map fst secrets)" and "import_path \<noteq> []"
  shows "import_accounts [] import_path (Content (export_data secrets now)) answer save_ok
         = (if save_ok then Imported (length secrets) else ImportSaveFailed, secrets)"
proof -
  have u: "dict_update [] secrets = secrets"
    using fold_update_appends[of "[]" secrets] assms(1) by simp
  have c: "filter (\<lambda>name. has_key name ([] :: store)) (map fst secrets) = []"
    by (simp add: has_key_def)
  show ?thesis
    using assms(2) by (simp add: import_accounts_def export_data_def c apply_import_def u)
qed

lemma export_nonempty:
  "secrets \<noteq> [] \<Longrightarrow> export_path \<noteq> [] \<Longrightarrow>
   export_accounts secrets export_path True now = Exported (export_data secrets now)"
  by (simp add: export_accounts_def)

text \<open>
  Claim C3, as the code has it. A store that is not empty is exported to the document
  with the version \<open>1.0\<close>, the store under \<^verbatim>\<open>accounts\<close> and the time of the export;
  importing that document into the empty store gives the store back, key by key and value
  by value and in the same order. No conflict arises, so the reply to the conflict
  question (replace, skip or abort) is never asked for. The empty store is not exported.
\<close>

theorem export_import_round_trip:
  assumes "secrets \<noteq> []" and "distinct (map fst secrets)"
    and "export_path \<noteq> []" and "import_path \<noteq> []"
  shows "export_accounts secrets export_path True now
           = Exported (JObj [(''version'', JStr ''1.0''), (''accounts'', JObj secrets),
                             (''exported_at'', JNum now)])
       \<and> import_accounts [] import_path
            (Content (JObj [(''version'', JStr ''1.0''), (''accounts'', JObj secrets),
                            (''exported_at'', JNum now)])) answer save_ok
           = (if save_ok then Imported (length secrets) else ImportSaveFailed, secrets)"
  using export_nonempty[OF assms(1,3), of now]
    import_into_empty[OF assms(2,4), of now answer save_ok]
  by (simp add: export_data_def)

theorem export_import_round_trip_witness:
  "[(''A_b'', account_record ''JBSWY3DPEHPK3PXP'' ''b'' ''A'' 1), (''old'', JStr ''GEZDGNBVGY3TQOJQ'')] \<noteq> []
   \<and> distinct (map fst [(''A_b'', account_record ''JBSWY3DPEHPK3PXP'' ''b'' ''A'' 1),
                         (''old'', JStr ''GEZDGNBVGY3TQOJQ'')])
   \<and> export_accounts [(''A_b'', account_record ''JBSWY3DPEHPK3PXP'' ''b'' ''A'' 1),
                       (''old'', JStr ''GEZDGNBVGY3TQOJQ'')] ''backup.2fa'' True 7
       = Exported (JObj [(''version'', JStr ''1.0''),
                         (''accounts'', JObj [(''A_b'', account_record ''JBSWY3DPEHPK3PXP'' ''b'' ''A'' 1),
                                              (''old'', JStr ''GEZDGNBVGY3TQOJQ'')]),
                         (''exported_at'', JNum 7)])
   \<and> import_accounts [] ''backup.2fa''
        (Content (JObj [(''version'', JStr ''1.0''),
                        (''accounts'', JObj [(''A_b'', account_record ''JBSWY3DPEHPK3PXP'' ''b'' ''A'' 1),
                                             (''old'', JStr ''GEZDGNBVGY3TQOJQ'')]),
                        (''exported_at'', JNum 7)])) (Some True) True
       = (Imported 2, [(''A_b'', account_record ''JBSWY3DPEHPK3PXP'' ''b'' ''A'' 1),
                       (''old'', JStr ''GEZDGNBVGY3TQOJQ'')])"
proof -
  let ?s = "[(''A_b'', account_record ''JBSWY3DPEHPK3PXP'' ''b'' ''A'' 1),
             (''old'', JStr ''GEZDGNBVGY3TQOJQ'')]"
  have h1: "?s \<noteq> []" by simp
  have h2: "distinct (map fst ?s)" by simp
  have h3: "''backup.2fa'' \<noteq> []" by simp
  show ?thesis
    using export_import_round_trip[OF h1 h2 h3 h3, of 7 "Some True" True] h1 h2
    by simp
qed

text \<open>The empty store: the export reports that there are no accounts and writes nothing.\<close>

theorem empty_store_is_not_exported:
  "export_accounts [] ''backup.2fa'' True 0 = NoAccounts"
  by (simp add: export_accounts_def)

section \<open>Renaming\<close>


lemma convert_number: "int_literal v \<Longrightarrow> convert_stringval v \<noteq> JStr w"
  by (simp add: convert_stringval_def)


















section \<open>Time remaining in the window\<close>

lemma py_int_nonneg: "0 \<le> x \<Longrightarrow> py_int x = \<lfloor>x\<rfloor>"
  by (simp add: py_int_def)

lemma remaining_floor: "0 \<le> t \<Longrightarrow> get_time_remaining t = 30 - (\<lfloor>t\<rfloor> mod 30)"
  by (simp add: get_time_remaining_def TOTP_PERIOD_def py_int_nonneg)

lemma remaining_range: "1 \<le> get_time_remaining t \<and> get_time_remaining t \<le> 30"
proof -
  have "0 \<le> py_int t mod 30" "py_int t mod 30 < 30" by simp_all
  then show ?thesis by (simp add: get_time_remaining_def TOTP_PERIOD_def)
qed

lemma window_div: "\<lfloor>t / 30\<rfloor> = \<lfloor>t :: real\<rfloor> div 30"
  using floor_divide_real_eq_div[of 30 t] by simp

lemma remaining_window:
  assumes "0 \<le> t" "t \<le> t'" "\<lfloor>t / 30\<rfloor> = \<lfloor>t' / 30\<rfloor>"
  shows "get_time_remaining t' \<le> get_time_remaining t"
proof -
  have le: "\<lfloor>t\<rfloor> \<le> \<lfloor>t'\<rfloor>" using assms(2) by (rule floor_mono)
  have d: "\<lfloor>t\<rfloor> div 30 = \<lfloor>t'\<rfloor> div 30" using assms(3) by (simp add: window_div)
  have "\<lfloor>t\<rfloor> mod 30 \<le> \<lfloor>t'\<rfloor> mod 30"
    using le d by presburger
  moreover have "0 \<le> t'" using assms by simp
  ultimately show ?thesis using assms(1) by (simp add: remaining_floor)
qed

lemma remaining_boundary: "get_time_remaining (30 * real k) = 30"
proof -
  have "\<lfloor>30 * real k\<rfloor> = 30 * int k"
    by (metis floor_of_int of_int_mult of_int_numeral of_int_of_nat_eq)
  then show ?thesis by (simp add: remaining_floor)
qed

lemma remaining_before_boundary: "get_time_remaining (30 * real k + 29) = 1"
proof -
  have "\<lfloor>30 * real k + 29\<rfloor> = 30 * int k + 29" by (simp add: floor_unique)
  then show ?thesis by (simp add: remaining_floor)
qed

text \<open>
  Claim C10. \<^verbatim>\<open>time.time()\<close> counts the seconds since the epoch, so a reading of the
  clock is not negative. For every such reading \<open>t\<close> the seconds remaining are
  \<open>30 - (floor t mod 30)\<close>; within one 30-second window a later reading never has more
  seconds left; the last second of a window has 1 left and the boundary that follows has
  30. The result lies between 1 and 30 for every argument \<open>u\<close> whatever.
\<close>

theorem seconds_remaining_from_epoch:
  assumes "0 \<le> t" and "t \<le> t'" and "\<lfloor>t / 30\<rfloor> = \<lfloor>t' / 30\<rfloor>"
  shows "get_time_remaining t = 30 - (\<lfloor>t\<rfloor> mod 30)
       \<and> 1 \<le> get_time_remaining u \<and> get_time_remaining u \<le> 30
       \<and> get_time_remaining t' \<le> get_time_remaining t
       \<and> get_time_remaining (30 * real k + 29) = 1
       \<and> get_time_remaining (30 * real (Suc k)) = 30"
  using assms remaining_floor[of t] remaining_range[of u] remaining_window[of t t']
    remaining_before_boundary[of k] remaining_boundary[of "Suc k"]
  by blast

theorem seconds_remaining_from_epoch_witness:
  "(0::real) \<le> 61 / 2 \<and> (61 / 2 :: real) \<le> 296 / 5
   \<and> \<lfloor>(61 / 2 :: real) / 30\<rfloor> = \<lfloor>(296 / 5 :: real) / 30\<rfloor>
   \<and> get_time_remaining (61 / 2) = 30 - (\<lfloor>61 / 2 :: real\<rfloor> mod 30)
   \<and> get_time_remaining (61 / 2) = 30
   \<and> 1 \<le> get_time_remaining (296 / 5) \<and> get_time_remaining (296 / 5) \<le> 30
   \<and> get_time_remaining (296 / 5) \<le> get_time_remaining (61 / 2)
   \<and> get_time_remaining (30 * real 1 + 29) = 1
   \<and> get_time_remaining (30 * real (Suc 1)) = 30"
proof -
  have h1: "(0::real) \<le> 61 / 2" by simp
  have h2: "(61 / 2 :: real) \<le> 296 / 5" by simp
  have f1: "\<lfloor>(61 / 2 :: real) / 30\<rfloor> = 1" by (rule floor_unique) simp_all
  have f2: "\<lfloor>(296 / 5 :: real) / 30\<rfloor> = 1" by (rule floor_unique) simp_all
  have h3: "\<lfloor>(61 / 2 :: real) / 30\<rfloor> = \<lfloor>(296 / 5 :: real) / 30\<rfloor>" by (simp only: f1 f2)
  have v: "get_time_remaining (61 / 2) = 30"
    by (simp add: get_time_remaining_def TOTP_PERIOD_def py_int_def)
  show ?thesis
    using seconds_remaining_from_epoch[OF h1 h2 h3, of "296 / 5" 1] h1 h2 h3 v by simp
qed

end
